theory Spec2Isabelle
  imports Main
begin

section \<open>JavaScript values and property lookup\<close>

text \<open>
  The prioritisation code of \<^verbatim>\<open>App.jsx\<close> works on values that come out of
  \<^verbatim>\<open>JSON.parse\<close>. Only their truthiness is ever inspected (\<^verbatim>\<open>x || null\<close>,
  \<^verbatim>\<open>.filter(Boolean)\<close>, \<^verbatim>\<open>if (!c)\<close>), so a value is one of the JSON scalars, an
  object or array whose contents are not looked at (\<open>JObject\<close>), a function
  (\<open>JFunction\<close>, only ever obtained from \<^verbatim>\<open>Object.prototype\<close>) or \<^verbatim>\<open>undefined\<close>.
  \<open>JNum n\<close> is a finite number, the whole number \<open>n\<close>; numbers with a fraction are
  not represented. A literal beyond the range of a double, such as \<^verbatim>\<open>1e400\<close> or
  \<^verbatim>\<open>-1e400\<close>, is read by \<^verbatim>\<open>JSON.parse\<close> as \<^verbatim>\<open>Infinity\<close> or \<^verbatim>\<open>-Infinity\<close>: these are
  \<open>JInfinity\<close> and \<open>JNegInfinity\<close>, never a \<open>JNum\<close>.
\<close>

datatype jsval =
    JUndefined | JNull | JBool bool | JNum int | JInfinity | JNegInfinity | JStr string
  | JObject | JFunction

fun truthy :: "jsval \<Rightarrow> bool" where
  "truthy JUndefined = False"
| "truthy JNull = False"
| "truthy (JBool b) = b"
| "truthy (JNum n) = (n \<noteq> 0)"
| "truthy JInfinity = True"
| "truthy JNegInfinity = True"
| "truthy (JStr s) = (s \<noteq> [])"
| "truthy JObject = True"
| "truthy JFunction = True"

text \<open>\<^verbatim>\<open>a || b\<close>\<close>

definition js_or :: "jsval \<Rightarrow> jsval \<Rightarrow> jsval" where
  "js_or a b = (if truthy a then a else b)"

text \<open>
  What is read back from a property written through \<^verbatim>\<open>JSON.stringify\<close>: a function
  valued property is left out of the text, so it reads as \<^verbatim>\<open>undefined\<close>, and a number
  that is not finite is written as \<^verbatim>\<open>null\<close>.
\<close>

fun stringify :: "jsval \<Rightarrow> jsval" where
  "stringify JFunction = JUndefined"
| "stringify JInfinity = JNull"
| "stringify JNegInfinity = JNull"
| "stringify v = v"

text \<open>
  \<^verbatim>\<open>obj[k]\<close> on an object made by \<^verbatim>\<open>Object.fromEntries\<close> or \<^verbatim>\<open>JSON.parse\<close>: the own
  property if there is one, otherwise the member of \<^verbatim>\<open>Object.prototype\<close> of that name
  if there is one, otherwise \<^verbatim>\<open>undefined\<close>.
\<close>

definition proto_keys :: "string list" where
  "proto_keys =
     [''constructor'', ''__defineGetter__'', ''__defineSetter__'', ''hasOwnProperty'',
      ''__lookupGetter__'', ''__lookupSetter__'', ''isPrototypeOf'', ''propertyIsEnumerable'',
      ''toString'', ''valueOf'', ''__proto__'', ''toLocaleString'']"

datatype 'a slot = Own 'a | Inherited | Absent

text \<open>\<^verbatim>\<open>Object.fromEntries\<close>: of two entries with the same key the later one stays.\<close>

definition fromEntries :: "(string \<times> 'a) list \<Rightarrow> (string \<rightharpoonup> 'a)" where
  "fromEntries kvs = map_of (rev kvs)"

definition get_prop :: "(string \<rightharpoonup> 'a) \<Rightarrow> string \<Rightarrow> 'a slot" where
  "get_prop obj k =
     (case obj k of
        Some v \<Rightarrow> Own v
      | None \<Rightarrow> if k \<in> set proto_keys then Inherited else Absent)"

text \<open>A property key made of an id: a missing id (\<^verbatim>\<open>undefined\<close>) becomes the key \<^verbatim>\<open>"undefined"\<close>.\<close>

definition prop_key :: "string option \<Rightarrow> string" where
  "prop_key i = (case i of Some s \<Rightarrow> s | None \<Rightarrow> ''undefined'')"

section \<open>Tasks\<close>

text \<open>
  A task is a plain object; a field that the object does not have is \<open>None\<close>
  (\<^verbatim>\<open>undefined\<close>). \<open>tid\<close> is the property \<^verbatim>\<open>id\<close>.
\<close>

record task =
  tid :: "string option"
  title :: "string option"
  deadline :: "string option"
  priority :: "string option"
  category :: "string option"
  energy :: "string option"
  aiHint :: "string option"
  status :: "string option"
  createdAt :: "string option"
  doneAt :: "string option"
  note_text :: "string option"
  priorityReason :: jsval

text \<open>
  The lookup table \<^verbatim>\<open>Object.fromEntries(tasks.map((t) => [t.id, t]))\<close> that both
  \<^verbatim>\<open>prioritizeTasks\<close> and \<^verbatim>\<open>runPrioritize\<close> call \<^verbatim>\<open>map\<close>.
\<close>

definition task_map :: "task list \<Rightarrow> (string \<rightharpoonup> task)" where
  "task_map tasks = fromEntries (map (\<lambda>t. (prop_key (tid t), t)) tasks)"

text \<open>\<^verbatim>\<open>t.status === "active"\<close>\<close>

definition is_active :: "task \<Rightarrow> bool" where
  "is_active t = (status t = Some ''active'')"

text \<open>
  \<^verbatim>\<open>{...x}\<close> for \<open>x\<close> a member of \<^verbatim>\<open>Object.prototype\<close> (a function, or the prototype
  itself for \<^verbatim>\<open>__proto__\<close>): no own enumerable property is copied, the object is empty.
\<close>

definition no_props :: task where
  "no_props =
     \<lparr>tid = None, title = None, deadline = None, priority = None, category = None,
      energy = None, aiHint = None, status = None, createdAt = None, doneAt = None,
      note_text = None, priorityReason = JUndefined\<rparr>"

text \<open>A task with the given id and status and no other field, for evaluated examples.\<close>

definition sample :: "string \<Rightarrow> string \<Rightarrow> task" where
  "sample i s = no_props\<lparr>tid := Some i, status := Some s\<rparr>"

section \<open>Storage layer: the priority cache\<close>

text \<open>
  The item \<^verbatim>\<open>fm_priority_cache\<close> of \<^verbatim>\<open>localStorage\<close>, as \<^verbatim>\<open>JSON.parse\<close> sees it:
  no item (or the empty string, replaced by \<^verbatim>\<open>"null"\<close>), a text that \<^verbatim>\<open>JSON.parse\<close>
  rejects with a \<^verbatim>\<open>SyntaxError\<close>, or a parsed value. A parsed value is falsy
  (\<^verbatim>\<open>null\<close>, \<^verbatim>\<open>false\<close>, \<^verbatim>\<open>0\<close>, \<^verbatim>\<open>""\<close>) or it is read through its properties \<^verbatim>\<open>data\<close>
  (\<open>None\<close> when missing or falsy) and \<^verbatim>\<open>at\<close>.

  The property \<^verbatim>\<open>at\<close> is only ever the right operand of \<^verbatim>\<open>Date.now() - c.at\<close>, which
  converts it to a number. \<open>at_value\<close> is what that conversion gives:
  \<^item> \<open>AtNumber n\<close>: the number \<open>n\<close>, a whole number of milliseconds (what
    \<^verbatim>\<open>savePriorityCache\<close> writes; also \<^verbatim>\<open>null\<close>, a boolean or a numeric text); numbers
    with a fraction are not represented;
  \<^item> \<open>AtNaN\<close>: the conversion gives \<^verbatim>\<open>NaN\<close> (\<^verbatim>\<open>at\<close> is missing, a text that is no
    number, a plain object, or the inherited method \<^verbatim>\<open>at\<close> of a stored text or array);
  \<^item> \<open>AtNoPrimitive\<close>: the conversion throws a \<^verbatim>\<open>TypeError\<close>. \<^verbatim>\<open>at\<close> is an object with
    a property \<^verbatim>\<open>toString\<close> of its own, as in \<^verbatim>\<open>{"at":{"valueOf":1,"toString":1}}\<close>, or
    an array that holds one: no parsed value is callable, the inherited
    \<^verbatim>\<open>valueOf\<close> returns the object itself, and so no primitive is found.
\<close>

datatype at_value = AtNumber int | AtNaN | AtNoPrimitive

record cache_pair =
  cid :: "string option"
  creason :: jsval

datatype cache_json = Falsy | Entry "cache_pair list option" at_value

datatype stored = NoItem | Malformed | Parsed cache_json

datatype 'a outcome = Returns 'a | Throws

text \<open>
  The state the code reads and writes: the cache item, and two counters that only
  observe it (calls of \<^verbatim>\<open>callClaude\<close>, calls of \<^verbatim>\<open>savePriorityCache\<close>).
\<close>

record world =
  cache :: stored
  oracle_calls :: nat
  cache_writes :: nat

definition getPriorityCache :: "world \<Rightarrow> cache_json outcome" where
  "getPriorityCache w =
     (case cache w of
        NoItem \<Rightarrow> Returns Falsy
      | Malformed \<Rightarrow> Throws
      | Parsed c \<Rightarrow> Returns c)"

definition savePriorityCache :: "cache_pair list \<Rightarrow> int \<Rightarrow> world \<Rightarrow> world" where
  "savePriorityCache data now w =
     w\<lparr>cache := Parsed (Entry (Some (map (\<lambda>p. p\<lparr>creason := stringify (creason p)\<rparr>) data)) (AtNumber now)),
       cache_writes := Suc (cache_writes w)\<rparr>"

definition isPriorityCacheValid :: "world \<Rightarrow> int \<Rightarrow> bool outcome" where
  "isPriorityCacheValid w now =
     (case cache w of
        NoItem \<Rightarrow> Returns False
      | Malformed \<Rightarrow> Throws
      | Parsed Falsy \<Rightarrow> Returns False
      | Parsed (Entry d AtNaN) \<Rightarrow> Returns False
      | Parsed (Entry d AtNoPrimitive) \<Rightarrow> Throws
      | Parsed (Entry d (AtNumber at)) \<Rightarrow> Returns (now - at < 60 * 60 * 1000))"

section \<open>The ranking oracle\<close>

text \<open>
  What \<^verbatim>\<open>prioritizeTasks\<close> can get from \<^verbatim>\<open>callClaude\<close> and \<^verbatim>\<open>JSON.parse\<close>:
  \<^item> \<open>Rejected\<close>: the promise of \<^verbatim>\<open>callClaude\<close> rejects (\<^verbatim>\<open>fetch\<close> or \<^verbatim>\<open>res.json()\<close> fails);
  \<^item> \<open>Unparsable\<close>: a text that \<^verbatim>\<open>JSON.parse\<close> rejects, among them the \<^verbatim>\<open>""\<close> that
    \<^verbatim>\<open>callClaude\<close> returns without an API key or on a response that is not ok;
  \<^item> \<open>NoOrder\<close>: JSON on which \<^verbatim>\<open>result.order.map\<close> raises a \<^verbatim>\<open>TypeError\<close> (no
    \<^verbatim>\<open>order\<close>, or one that is not an array);
  \<^item> \<open>Ranking order reasons\<close>: the array \<^verbatim>\<open>order\<close>, its elements as property keys, and
    the object \<^verbatim>\<open>reasons\<close> with its own properties (\<open>None\<close> when \<^verbatim>\<open>null\<close> or missing). An
    answer whose \<^verbatim>\<open>reasons\<close> is an array, a text, a number or a boolean is not
    represented.
\<close>

datatype reply =
    Rejected
  | Unparsable
  | NoOrder
  | Ranking "string list" "(string \<rightharpoonup> jsval) option"

text \<open>\<^verbatim>\<open>result.reasons?.[k]\<close>\<close>

definition reason_for :: "(string \<rightharpoonup> jsval) option \<Rightarrow> string \<Rightarrow> jsval" where
  "reason_for reasons k =
     (case reasons of
        None \<Rightarrow> JUndefined
      | Some rs \<Rightarrow>
          (case get_prop rs k of
             Own v \<Rightarrow> v
           | Inherited \<Rightarrow> if k = ''__proto__'' then JObject else JFunction
           | Absent \<Rightarrow> JUndefined))"

definition prioritizeTasks :: "task list \<Rightarrow> reply \<Rightarrow> world \<Rightarrow> task list outcome \<times> world" where
  "prioritizeTasks tasks r w =
     (if tasks = [] then (Returns tasks, w)
      else
        let w' = w\<lparr>oracle_calls := Suc (oracle_calls w)\<rparr> in
        case r of
          Rejected \<Rightarrow> (Throws, w')
        | Unparsable \<Rightarrow> (Returns tasks, w')
        | NoOrder \<Rightarrow> (Returns tasks, w')
        | Ranking order reasons \<Rightarrow>
            let m = task_map tasks;
                sorted' = List.map_filter
                  (\<lambda>i. case get_prop m i of
                         Own t \<Rightarrow> Some t
                       | Inherited \<Rightarrow> Some no_props
                       | Absent \<Rightarrow> None) order
            in (Returns (map (\<lambda>t. t\<lparr>priorityReason :=
                             js_or (reason_for reasons (prop_key (tid t))) JNull\<rparr>) sorted'), w'))"

section \<open>The coordinator\<close>

text \<open>
  The cache-hit block of \<^verbatim>\<open>runPrioritize\<close> (``Apply cached order to current tasks''
  and ``Add any tasks not in cache''). \<^verbatim>\<open>cachedIds\<close> is a \<^verbatim>\<open>Set\<close>: membership compares
  the ids themselves, with no conversion to a property key.
\<close>

definition reconcile :: "cache_pair list \<Rightarrow> task list \<Rightarrow> task list" where
  "reconcile data currentTasks =
     (let m = task_map currentTasks;
          reordered = List.map_filter
            (\<lambda>p. case get_prop m (prop_key (cid p)) of
                   Own t \<Rightarrow> Some (t\<lparr>priorityReason := creason p\<rparr>)
                 | Inherited \<Rightarrow> Some (no_props\<lparr>priorityReason := creason p\<rparr>)
                 | Absent \<Rightarrow> None) data;
          cachedIds = set (map cid data);
          remaining = filter (\<lambda>t. tid t \<notin> cachedIds) currentTasks
      in reordered @ remaining)"

text \<open>\<^verbatim>\<open>cached?.data\<close>\<close>

fun cached_data :: "cache_json \<Rightarrow> cache_pair list option" where
  "cached_data Falsy = None"
| "cached_data (Entry d at) = d"

text \<open>
  The two readings of \<^verbatim>\<open>Date.now()\<close> (at the validity check, and at the cache write
  after the oracle has answered) and the oracle's answer.
\<close>

record env =
  t_check :: int
  t_save :: int
  answer :: reply

text \<open>
  The guard \<^verbatim>\<open>if (!force && storage.isPriorityCacheValid())\<close> with its body: the
  list to return on a cache hit, \<open>None\<close> when control falls through to the oracle.
  Both storage calls stand outside the \<^verbatim>\<open>try\<close>, so what they throw leaves
  \<^verbatim>\<open>runPrioritize\<close>.
\<close>

definition from_cache :: "task list \<Rightarrow> bool \<Rightarrow> env \<Rightarrow> world \<Rightarrow> task list option outcome" where
  "from_cache currentTasks force e w =
     (if force then Returns None
      else
        case isPriorityCacheValid w (t_check e) of
          Throws \<Rightarrow> Throws
        | Returns False \<Rightarrow> Returns None
        | Returns True \<Rightarrow>
            (case getPriorityCache w of
               Throws \<Rightarrow> Throws
             | Returns cached \<Rightarrow>
                 (case cached_data cached of
                    None \<Rightarrow> Returns None
                  | Some d \<Rightarrow> Returns (Some (reconcile d currentTasks)))))"

definition runPrioritize :: "task list \<Rightarrow> bool \<Rightarrow> env \<Rightarrow> world \<Rightarrow> task list outcome \<times> world" where
  "runPrioritize currentTasks force e w =
     (let active = filter is_active currentTasks in
      if length active < 2 then (Returns currentTasks, w)
      else
        case from_cache currentTasks force e w of
          Throws \<Rightarrow> (Throws, w)
        | Returns (Some out) \<Rightarrow> (Returns out, w)
        | Returns None \<Rightarrow>
            (case prioritizeTasks active (answer e) w of
               (Throws, w') \<Rightarrow> (Returns currentTasks, w')
             | (Returns sorted', w') \<Rightarrow>
                 (let doneTasks = filter (\<lambda>t. \<not> is_active t) currentTasks;
                      merged = sorted' @ doneTasks
                  in (Returns merged,
                      savePriorityCache
                        (map (\<lambda>t. \<lparr>cid = tid t, creason = priorityReason t\<rparr>) sorted')
                        (t_save e) w'))))"

section \<open>Adding a task\<close>

text \<open>
  \<^verbatim>\<open>uid\<close> is \<^verbatim>\<open>Math.random().toString(36).slice(2, 9)\<close>: at most seven of the
  characters that follow \<^verbatim>\<open>"0."\<close> in the base 36 text of the random number. The
  argument is that run of characters.
\<close>

definition uid :: "string \<Rightarrow> string" where
  "uid digits = take 7 digits"

text \<open>
  \<^verbatim>\<open>handleAdd\<close>, returning the task list it hands to \<^verbatim>\<open>setTasks\<close> and
  \<^verbatim>\<open>storage.saveTasks\<close>. Without a task it only opens the dialog; when
  \<^verbatim>\<open>runPrioritize\<close> throws, the two setters are not reached.
\<close>

definition handleAdd :: "task option \<Rightarrow> task list \<Rightarrow> env \<Rightarrow> world \<Rightarrow> task list \<times> world" where
  "handleAdd task tasks e w =
     (case task of
        None \<Rightarrow> (tasks, w)
      | Some t \<Rightarrow>
          (let updated = t # tasks in
           case runPrioritize updated True e w of
             (Returns sorted', w') \<Rightarrow> (sorted', w')
           | (Throws, w') \<Rightarrow> (tasks, w')))"

section \<open>The specification's reconciliation\<close>

text \<open>
  The reconciled sequence as the specification words it: for each cached pair, in
  order, the current record of that id with the cached reason; a pair whose id is
  gone is skipped.
\<close>

definition spec_reconciled :: "cache_pair list \<Rightarrow> task list \<Rightarrow> task list" where
  "spec_reconciled data tasks =
     List.map_filter
       (\<lambda>p. case find (\<lambda>t. tid t = cid p) tasks of
              Some t \<Rightarrow> Some (t\<lparr>priorityReason := creason p\<rparr>)
            | None \<Rightarrow> None) data"

text \<open>
  The specification's result ordering: reconciled sequence, then the active tasks
  added since the cache was written, then the tasks that are not active.
\<close>

definition spec_reconcile :: "cache_pair list \<Rightarrow> task list \<Rightarrow> task list" where
  "spec_reconcile data tasks =
     spec_reconciled data tasks
     @ filter (\<lambda>t. is_active t \<and> tid t \<notin> set (map cid data)) tasks
     @ filter (\<lambda>t. \<not> is_active t) tasks"



text \<open>
  An answer of the oracle that names no id twice and no member of
  \<^verbatim>\<open>Object.prototype\<close>; an answer without a ranking names nothing.
\<close>

fun no_repeat :: "reply \<Rightarrow> bool" where
  "no_repeat (Ranking order reasons) = (distinct order \<and> set order \<inter> set proto_keys = {})"
| "no_repeat r = True"

section \<open>Lookup lemmas\<close>

lemma task_map_SomeD: "task_map ts k = Some t \<Longrightarrow> t \<in> set ts \<and> prop_key (tid t) = k"
  by (auto simp: task_map_def fromEntries_def rev_map[symmetric] dest!: map_of_SomeD)

lemma task_map_None: "(task_map ts k = None) = (k \<notin> (\<lambda>t. prop_key (tid t)) ` set ts)"
  by (simp add: task_map_def fromEntries_def map_of_eq_None_iff image_image)

lemma task_map_distinct:
  "distinct (map (\<lambda>t. prop_key (tid t)) ts) \<Longrightarrow> t \<in> set ts
   \<Longrightarrow> task_map ts (prop_key (tid t)) = Some t"
  unfolding task_map_def fromEntries_def
  by (rule map_of_is_SomeI) (auto simp: rev_map[symmetric] comp_def)

lemma get_prop_Own: "get_prop m k = Own v \<longleftrightarrow> m k = Some v"
  by (auto simp: get_prop_def split: option.splits)

lemma get_prop_Inherited: "get_prop m k = Inherited \<longleftrightarrow> m k = None \<and> k \<in> set proto_keys"
  by (auto simp: get_prop_def split: option.splits)

lemma get_prop_Absent: "get_prop m k = Absent \<longleftrightarrow> m k = None \<and> k \<notin> set proto_keys"
  by (auto simp: get_prop_def split: option.splits)

lemma set_map_filter: "set (List.map_filter f xs) = {y. \<exists>x \<in> set xs. f x = Some y}"
  by (induction xs) (auto split: option.splits)



lemma distinct_partition:
  "distinct (map f xs) \<Longrightarrow> distinct (map f (filter P xs @ filter (\<lambda>x. \<not> P x) xs))"
  by (induction xs) (auto simp: image_iff)

section \<open>The cache validity check\<close>




text \<open>
  Claim C6: an entry written by \<^verbatim>\<open>savePriorityCache\<close> at time \<open>T\<close> is valid at time
  \<open>now\<close> exactly when \<open>now - T\<close> is less than one hour (3600000 ms); it is valid 59
  minutes after \<open>T\<close> and invalid 61 minutes after \<open>T\<close>.
\<close>

theorem C6_ttl_one_hour:
  "isPriorityCacheValid (savePriorityCache d T w) now = Returns (now - T < 3600000)
   \<and> isPriorityCacheValid (savePriorityCache d T w) (T + 59 * 60 * 1000) = Returns True
   \<and> isPriorityCacheValid (savePriorityCache d T w) (T + 61 * 60 * 1000) = Returns False"
  by (simp add: isPriorityCacheValid_def savePriorityCache_def)

section \<open>Below the ranking threshold\<close>

text \<open>
  Claim C5: with fewer than two active tasks, whatever the force flag,
  \<^verbatim>\<open>runPrioritize\<close> returns the list it was given and leaves the state as it was: no
  oracle call is counted and the cache is not written.
\<close>

theorem C5_below_threshold:
  "length (filter is_active tasks) < 2
   \<Longrightarrow> runPrioritize tasks force e w = (Returns tasks, w)"
  by (simp add: runPrioritize_def)

theorem C5_below_threshold_witness:
  "length (filter is_active [sample ''a'' ''active'', sample ''b'' ''done'']) < 2
   \<and> runPrioritize [sample ''a'' ''active'', sample ''b'' ''done''] True
        \<lparr>t_check = 0, t_save = 0, answer = Ranking [''b'', ''a''] None\<rparr>
        \<lparr>cache = NoItem, oracle_calls = 0, cache_writes = 0\<rparr>
     = (Returns [sample ''a'' ''active'', sample ''b'' ''done''],
        \<lparr>cache = NoItem, oracle_calls = 0, cache_writes = 0\<rparr>)"
proof -
  have h: "length (filter is_active [sample ''a'' ''active'', sample ''b'' ''done'']) < 2"
    by (simp add: is_active_def sample_def no_props_def)
  show ?thesis using h C5_below_threshold [OF h] by simp
qed

section \<open>Reconciliation\<close>






text \<open>
  A cache hit: with a stored entry that has its data and is younger than one hour,
  an unforced call returns the reconciled list (the list itself below the
  threshold) and leaves the state as it was.
\<close>

lemma runPrioritize_cache_hit:
  assumes "cache w = Parsed (Entry (Some d) (AtNumber at))" "t_check e - at < 3600000"
  shows "runPrioritize tasks False e w =
           (Returns (if length (filter is_active tasks) < 2 then tasks else reconcile d tasks), w)"
  using assms
  by (simp add: runPrioritize_def from_cache_def isPriorityCacheValid_def getPriorityCache_def)

text \<open>
  Claim C8: reconciling the same valid cache entry against the same task list twice
  gives the same list both times. The first call leaves the state untouched, and the
  second call, made from the state the first one left, at another time within the
  hour and whatever the oracle would answer, returns the same list.
\<close>

theorem C8_reconciliation_repeatable:
  assumes "cache w = Parsed (Entry (Some d) (AtNumber at))"
    and "t_check e1 - at < 3600000" and "t_check e2 - at < 3600000"
  shows "\<exists>out. runPrioritize tasks False e1 w = (Returns out, w)
          \<and> runPrioritize tasks False e2 (snd (runPrioritize tasks False e1 w))
              = (Returns out, w)"
  using assms by (simp add: runPrioritize_cache_hit)

theorem C8_reconciliation_repeatable_witness:
  "cache \<lparr>cache = Parsed (Entry (Some [\<lparr>cid = Some ''b'', creason = JStr ''x''\<rparr>]) (AtNumber 1000)),
          oracle_calls = 0, cache_writes = 0\<rparr>
     = Parsed (Entry (Some [\<lparr>cid = Some ''b'', creason = JStr ''x''\<rparr>]) (AtNumber 1000))
   \<and> t_check \<lparr>t_check = 2000, t_save = 2500, answer = Rejected\<rparr> - 1000 < 3600000
   \<and> t_check \<lparr>t_check = 3000, t_save = 3500, answer = Ranking [''a'', ''b''] None\<rparr> - 1000
       < 3600000
   \<and> (\<exists>out.
         runPrioritize [sample ''a'' ''active'', sample ''b'' ''active''] False
           \<lparr>t_check = 2000, t_save = 2500, answer = Rejected\<rparr>
           \<lparr>cache = Parsed (Entry (Some [\<lparr>cid = Some ''b'', creason = JStr ''x''\<rparr>]) (AtNumber 1000)),
            oracle_calls = 0, cache_writes = 0\<rparr>
         = (Returns out,
            \<lparr>cache = Parsed (Entry (Some [\<lparr>cid = Some ''b'', creason = JStr ''x''\<rparr>]) (AtNumber 1000)),
             oracle_calls = 0, cache_writes = 0\<rparr>)
       \<and> runPrioritize [sample ''a'' ''active'', sample ''b'' ''active''] False
           \<lparr>t_check = 3000, t_save = 3500, answer = Ranking [''a'', ''b''] None\<rparr>
           (snd (runPrioritize [sample ''a'' ''active'', sample ''b'' ''active''] False
              \<lparr>t_check = 2000, t_save = 2500, answer = Rejected\<rparr>
              \<lparr>cache = Parsed (Entry (Some [\<lparr>cid = Some ''b'', creason = JStr ''x''\<rparr>]) (AtNumber 1000)),
               oracle_calls = 0, cache_writes = 0\<rparr>))
         = (Returns out,
            \<lparr>cache = Parsed (Entry (Some [\<lparr>cid = Some ''b'', creason = JStr ''x''\<rparr>]) (AtNumber 1000)),
             oracle_calls = 0, cache_writes = 0\<rparr>))"
proof -
  let ?w = "\<lparr>cache = Parsed (Entry (Some [\<lparr>cid = Some ''b'', creason = JStr ''x''\<rparr>]) (AtNumber 1000)),
             oracle_calls = 0, cache_writes = 0\<rparr>"
  let ?e1 = "\<lparr>t_check = 2000, t_save = 2500, answer = Rejected\<rparr>"
  let ?e2 = "\<lparr>t_check = 3000, t_save = 3500, answer = Ranking [''a'', ''b''] None\<rparr>"
  have h1: "cache ?w = Parsed (Entry (Some [\<lparr>cid = Some ''b'', creason = JStr ''x''\<rparr>]) (AtNumber 1000))"
    by simp
  have h2: "t_check ?e1 - 1000 < 3600000" by simp
  have h3: "t_check ?e2 - 1000 < 3600000" by simp
  show ?thesis
    using h1 h2 h3 C8_reconciliation_repeatable [OF h1 h2 h3] by blast
qed

text \<open>
  With ids that are all present and pairwise distinct, the lookup table finds a
  task by its id as a search through the list does.
\<close>

lemma find_by_id:
  assumes "distinct (map tid tasks)" "None \<notin> tid ` set tasks"
  shows "task_map tasks i = find (\<lambda>t. tid t = Some i) tasks"
proof -
  have defined: "\<And>t. t \<in> set tasks \<Longrightarrow> tid t = Some (prop_key (tid t))"
  proof -
    fix t assume "t \<in> set tasks"
    with assms(2) have "tid t \<noteq> None" by (metis image_eqI)
    then show "tid t = Some (prop_key (tid t))" by (auto simp: prop_key_def)
  qed
  show ?thesis
  proof (cases "find (\<lambda>t. tid t = Some i) tasks")
    case None
    then have "\<forall>t \<in> set tasks. tid t \<noteq> Some i" by (simp add: find_None_iff)
    with defined have "i \<notin> (\<lambda>t. prop_key (tid t)) ` set tasks"
      by (metis (mono_tags, lifting) imageE)
    with None show ?thesis by (simp add: task_map_None)
  next
    case (Some t)
    then have t: "t \<in> set tasks" "tid t = Some i"
      by (auto simp: find_Some_iff)
    have "inj_on prop_key (set (map tid tasks))"
    proof (rule inj_onI)
      fix a b
      assume "a \<in> set (map tid tasks)" "b \<in> set (map tid tasks)" "prop_key a = prop_key b"
      then show "a = b" using defined by (metis (no_types, lifting) imageE list.set_map)
    qed
    with assms(1) have "distinct (map prop_key (map tid tasks))"
      by (simp only: distinct_map)
    then have "distinct (map (\<lambda>t. prop_key (tid t)) tasks)" by (simp add: comp_def)
    from task_map_distinct [OF this t(1)] t(2) Some show ?thesis by (simp add: prop_key_def)
  qed
qed

lemma spec_reconciled_ids:
  "map tid (spec_reconciled d tasks) = filter (\<lambda>i. i \<in> tid ` set tasks) (map cid d)"
proof (induction d)
  case Nil
  show ?case by (simp add: spec_reconciled_def)
next
  case (Cons p d)
  show ?case
  proof (cases "find (\<lambda>t. tid t = cid p) tasks")
    case None
    then have "cid p \<notin> tid ` set tasks" by (auto simp: find_None_iff)
    with None Cons show ?thesis by (simp add: spec_reconciled_def)
  next
    case (Some t)
    then have "t \<in> set tasks" "tid t = cid p" by (auto simp: find_Some_iff)
    then have "cid p \<in> tid ` set tasks" by force
    with Some Cons \<open>tid t = cid p\<close> show ?thesis by (simp add: spec_reconciled_def)
  qed
qed

lemma reconcile_front:
  assumes "distinct (map tid tasks)" "None \<notin> tid ` set tasks"
    and "None \<notin> cid ` set d" "prop_key ` cid ` set d \<inter> set proto_keys = {}"
  shows "List.map_filter
            (\<lambda>p. case get_prop (task_map tasks) (prop_key (cid p)) of
                   Own t \<Rightarrow> Some (t\<lparr>priorityReason := creason p\<rparr>)
                 | Inherited \<Rightarrow> Some (no_props\<lparr>priorityReason := creason p\<rparr>)
                 | Absent \<Rightarrow> None) d
         = spec_reconciled d tasks"
  using assms(3,4)
proof (induction d)
  case Nil
  show ?case by (simp add: spec_reconciled_def)
next
  case (Cons p d)
  from Cons.prems obtain i where i: "cid p = Some i" by (cases "cid p") auto
  with Cons.prems have np: "i \<notin> set proto_keys" by (auto simp: prop_key_def)
  have IH: "List.map_filter
            (\<lambda>p. case get_prop (task_map tasks) (prop_key (cid p)) of
                   Own t \<Rightarrow> Some (t\<lparr>priorityReason := creason p\<rparr>)
                 | Inherited \<Rightarrow> Some (no_props\<lparr>priorityReason := creason p\<rparr>)
                 | Absent \<Rightarrow> None) d
         = spec_reconciled d tasks"
    using Cons by auto
  have "get_prop (task_map tasks) (prop_key (cid p)) =
          (case find (\<lambda>t. tid t = cid p) tasks of Some t \<Rightarrow> Own t | None \<Rightarrow> Absent)"
    using i np find_by_id [OF assms(1,2), of i]
    by (simp add: get_prop_def prop_key_def split: option.splits)
  then show ?case
    using IH by (simp add: spec_reconciled_def split: option.splits)
qed

text \<open>
  Claim C2, as the specification states it: the cache-hit result is the reconciled
  sequence, then the active tasks added since the cache was written, then the
  tasks that are not active; and every active task appears exactly once whatever
  the cache holds. Both parts fail on the code. The code appends every task whose
  id is not cached in its current place, active or not, so a task that is done and
  stands before a new active one stays before it. A cache that names an id twice
  puts that task twice in the result. And a cached id that is the name of a member
  of \<^verbatim>\<open>Object.prototype\<close> is found by the lookup though no task has it, and puts a
  record without id in front.
\<close>

theorem C2_reconcile_differs:
  "reconcile [\<lparr>cid = Some ''b'', creason = JStr ''x''\<rparr>, \<lparr>cid = Some ''a'', creason = JNull\<rparr>]
     [sample ''d'' ''done'', sample ''n'' ''active'', sample ''a'' ''active'',
      sample ''b'' ''active'']
     = [(sample ''b'' ''active'')\<lparr>priorityReason := JStr ''x''\<rparr>,
        (sample ''a'' ''active'')\<lparr>priorityReason := JNull\<rparr>,
        sample ''d'' ''done'', sample ''n'' ''active'']
   \<and> spec_reconcile
       [\<lparr>cid = Some ''b'', creason = JStr ''x''\<rparr>, \<lparr>cid = Some ''a'', creason = JNull\<rparr>]
       [sample ''d'' ''done'', sample ''n'' ''active'', sample ''a'' ''active'',
        sample ''b'' ''active'']
     = [(sample ''b'' ''active'')\<lparr>priorityReason := JStr ''x''\<rparr>,
        (sample ''a'' ''active'')\<lparr>priorityReason := JNull\<rparr>,
        sample ''n'' ''active'', sample ''d'' ''done'']
   \<and> reconcile [\<lparr>cid = Some ''b'', creason = JStr ''x''\<rparr>, \<lparr>cid = Some ''a'', creason = JNull\<rparr>]
       [sample ''d'' ''done'', sample ''n'' ''active'', sample ''a'' ''active'',
        sample ''b'' ''active'']
     \<noteq> spec_reconcile
         [\<lparr>cid = Some ''b'', creason = JStr ''x''\<rparr>, \<lparr>cid = Some ''a'', creason = JNull\<rparr>]
         [sample ''d'' ''done'', sample ''n'' ''active'', sample ''a'' ''active'',
          sample ''b'' ''active'']
   \<and> reconcile
         [\<lparr>cid = Some ''b'', creason = JStr ''x''\<rparr>, \<lparr>cid = Some ''b'', creason = JStr ''x''\<rparr>]
         [sample ''a'' ''active'', sample ''b'' ''active'']
     = [(sample ''b'' ''active'')\<lparr>priorityReason := JStr ''x''\<rparr>,
        (sample ''b'' ''active'')\<lparr>priorityReason := JStr ''x''\<rparr>,
        sample ''a'' ''active'']
   \<and> reconcile [\<lparr>cid = Some ''toString'', creason = JNull\<rparr>]
         [sample ''a'' ''active'', sample ''b'' ''active'']
     = [no_props\<lparr>priorityReason := JNull\<rparr>, sample ''a'' ''active'', sample ''b'' ''active'']"
  by (simp add: reconcile_def spec_reconcile_def spec_reconciled_def task_map_def fromEntries_def
        get_prop_def prop_key_def proto_keys_def sample_def no_props_def is_active_def)

text \<open>
  Claim C2, amended: when the current tasks all have an id and the ids are pairwise
  distinct, and the cached pairs all have an id, none of them the name of a member
  of \<^verbatim>\<open>Object.prototype\<close>, the cache-hit result is the reconciled sequence followed
  by the current tasks whose id is not cached, active or not, in their current
  order; the ids of the result are those of the current tasks (no omission, no
  foreign id); and when the cached ids are pairwise distinct too, every id appears
  exactly once.
\<close>

theorem C2_reconcile_shape:
  assumes "distinct (map tid tasks)" and "None \<notin> tid ` set tasks"
    and "None \<notin> cid ` set d" and "prop_key ` cid ` set d \<inter> set proto_keys = {}"
  shows "reconcile d tasks
           = spec_reconciled d tasks @ filter (\<lambda>t. tid t \<notin> set (map cid d)) tasks
         \<and> set (map tid (reconcile d tasks)) = set (map tid tasks)
         \<and> (distinct (map cid d) \<longrightarrow> distinct (map tid (reconcile d tasks)))"
proof -
  have shape: "reconcile d tasks
           = spec_reconciled d tasks @ filter (\<lambda>t. tid t \<notin> set (map cid d)) tasks"
    using reconcile_front [OF assms] by (simp add: reconcile_def)
  have ids: "map tid (reconcile d tasks)
           = filter (\<lambda>i. i \<in> tid ` set tasks) (map cid d)
             @ filter (\<lambda>i. i \<notin> set (map cid d)) (map tid tasks)"
    by (simp add: shape spec_reconciled_ids filter_map comp_def)
  have "set (map tid (reconcile d tasks)) = set (map tid tasks)"
    unfolding ids by auto
  moreover have "distinct (map cid d) \<longrightarrow> distinct (map tid (reconcile d tasks))"
    unfolding ids using assms(1) by auto
  ultimately show ?thesis using shape by simp
qed

theorem C2_reconcile_shape_witness:
  "distinct (map tid [sample ''d'' ''done'', sample ''n'' ''active'', sample ''b'' ''active''])
   \<and> None \<notin> tid ` set [sample ''d'' ''done'', sample ''n'' ''active'', sample ''b'' ''active'']
   \<and> None \<notin> cid ` set [\<lparr>cid = Some ''b'', creason = JStr ''x''\<rparr>,
                         \<lparr>cid = Some ''gone'', creason = JNull\<rparr>]
   \<and> prop_key ` cid ` set [\<lparr>cid = Some ''b'', creason = JStr ''x''\<rparr>,
                            \<lparr>cid = Some ''gone'', creason = JNull\<rparr>] \<inter> set proto_keys = {}
   \<and> distinct (map cid [\<lparr>cid = Some ''b'', creason = JStr ''x''\<rparr>,
                         \<lparr>cid = Some ''gone'', creason = JNull\<rparr>])
   \<and> reconcile [\<lparr>cid = Some ''b'', creason = JStr ''x''\<rparr>, \<lparr>cid = Some ''gone'', creason = JNull\<rparr>]
        [sample ''d'' ''done'', sample ''n'' ''active'', sample ''b'' ''active'']
      = spec_reconciled
          [\<lparr>cid = Some ''b'', creason = JStr ''x''\<rparr>, \<lparr>cid = Some ''gone'', creason = JNull\<rparr>]
          [sample ''d'' ''done'', sample ''n'' ''active'', sample ''b'' ''active'']
        @ filter (\<lambda>t. tid t \<notin> set (map cid [\<lparr>cid = Some ''b'', creason = JStr ''x''\<rparr>,
                                              \<lparr>cid = Some ''gone'', creason = JNull\<rparr>]))
            [sample ''d'' ''done'', sample ''n'' ''active'', sample ''b'' ''active'']
   \<and> distinct (map tid (reconcile
        [\<lparr>cid = Some ''b'', creason = JStr ''x''\<rparr>, \<lparr>cid = Some ''gone'', creason = JNull\<rparr>]
        [sample ''d'' ''done'', sample ''n'' ''active'', sample ''b'' ''active'']))"
proof -
  let ?d = "[\<lparr>cid = Some ''b'', creason = JStr ''x''\<rparr>, \<lparr>cid = Some ''gone'', creason = JNull\<rparr>]"
  let ?tasks = "[sample ''d'' ''done'', sample ''n'' ''active'', sample ''b'' ''active'']"
  have h1: "distinct (map tid ?tasks)" by (simp add: sample_def no_props_def)
  have h2: "None \<notin> tid ` set ?tasks" by (simp add: sample_def no_props_def)
  have h3: "None \<notin> cid ` set ?d" by simp
  have h4: "prop_key ` cid ` set ?d \<inter> set proto_keys = {}"
    by (simp add: prop_key_def proto_keys_def)
  have h5: "distinct (map cid ?d)" by simp
  show ?thesis
    using h1 h2 h3 h4 h5 C2_reconcile_shape [OF h1 h2 h3 h4] by blast
qed

section \<open>The oracle path\<close>

text \<open>
  With two active tasks or more and the cache bypassed (forced, or reported
  invalid), \<^verbatim>\<open>runPrioritize\<close> is its \<^verbatim>\<open>try\<close> block.
\<close>

lemma runPrioritize_oracle:
  assumes "2 \<le> length (filter is_active tasks)"
    and "force \<or> isPriorityCacheValid w (t_check e) = Returns False"
  shows "runPrioritize tasks force e w =
           (case prioritizeTasks (filter is_active tasks) (answer e) w of
              (Throws, w') \<Rightarrow> (Returns tasks, w')
            | (Returns s, w') \<Rightarrow>
                (Returns (s @ filter (\<lambda>t. \<not> is_active t) tasks),
                 savePriorityCache (map (\<lambda>t. \<lparr>cid = tid t, creason = priorityReason t\<rparr>) s)
                   (t_save e) w'))"
  using assms
  by (auto simp: runPrioritize_def from_cache_def Let_def split: prod.splits outcome.splits)

text \<open>
  When the oracle call itself fails (the promise rejects), the \<^verbatim>\<open>catch\<close> of
  \<^verbatim>\<open>runPrioritize\<close> returns the list it was given and the cache is not written.
\<close>

lemma rejected_answer_is_noop:
  assumes "2 \<le> length (filter is_active tasks)" and "answer e = Rejected"
  shows "runPrioritize tasks True e w
           = (Returns tasks, w\<lparr>oracle_calls := Suc (oracle_calls w)\<rparr>)"
proof -
  from assms(1) have "filter is_active tasks \<noteq> []" by auto
  then have "prioritizeTasks (filter is_active tasks) Rejected w
               = (Throws, w\<lparr>oracle_calls := Suc (oracle_calls w)\<rparr>)"
    by (simp add: prioritizeTasks_def)
  with runPrioritize_oracle [OF assms(1), of True w e] assms(2) show ?thesis by simp
qed

text \<open>
  Claim C1: when the oracle call fails (it throws, or its answer is malformed or
  does not parse), a forced \<^verbatim>\<open>runPrioritize\<close> returns the tasks in their order and
  does not write the cache. The code does so only when the call throws. An answer
  that does not parse is caught inside \<^verbatim>\<open>prioritizeTasks\<close>, which returns the active
  tasks it was given; \<^verbatim>\<open>runPrioritize\<close> takes that for a ranking, moves the tasks
  that are not active behind the active ones and writes the cache. Evaluated here
  on a task that is done followed by two active ones, with an answer that does not
  parse.
\<close>

theorem C1_unparsable_answer_writes_cache:
  "runPrioritize [sample ''d'' ''done'', sample ''a'' ''active'', sample ''b'' ''active''] True
     \<lparr>t_check = 1000, t_save = 2000, answer = Unparsable\<rparr>
     \<lparr>cache = NoItem, oracle_calls = 0, cache_writes = 0\<rparr>
   = (Returns [sample ''a'' ''active'', sample ''b'' ''active'', sample ''d'' ''done''],
      \<lparr>cache = Parsed (Entry (Some [\<lparr>cid = Some ''a'', creason = JUndefined\<rparr>,
                                     \<lparr>cid = Some ''b'', creason = JUndefined\<rparr>]) (AtNumber 2000)),
       oracle_calls = 1, cache_writes = 1\<rparr>)"
  by (simp add: runPrioritize_def from_cache_def prioritizeTasks_def savePriorityCache_def
        is_active_def sample_def no_props_def)






text \<open>
  A record of the ranked list has the id and status of a submitted task whose id,
  as a key, is in the returned order; or it is the empty object of an inherited
  lookup, which takes a returned name of \<^verbatim>\<open>Object.prototype\<close>.
\<close>

lemma ranked_elems:
  assumes "prioritizeTasks active (Ranking order reasons) w = (Returns s, w')" "x \<in> set s"
  shows "(tid x = None \<and> status x = None \<and> set order \<inter> set proto_keys \<noteq> {})
         \<or> (prop_key (tid x) \<in> set order
             \<and> (\<exists>t \<in> set active. tid x = tid t \<and> status x = status t))"
proof (cases "active = []")
  case True
  with assms show ?thesis by (simp add: prioritizeTasks_def)
next
  case False
  let ?f = "\<lambda>i. case get_prop (task_map active) i of
                   Own t \<Rightarrow> Some t
                 | Inherited \<Rightarrow> Some no_props
                 | Absent \<Rightarrow> None"
  from False assms obtain y where y: "y \<in> set (List.map_filter ?f order)"
      "tid x = tid y" "status x = status y"
    by (auto simp: prioritizeTasks_def Let_def)
  then obtain i where i: "i \<in> set order" "?f i = Some y"
    by (auto simp: set_map_filter)
  then show ?thesis using y(2,3)
    by (cases "get_prop (task_map active) i")
       (auto simp: get_prop_Own get_prop_Inherited no_props_def dest!: task_map_SomeD)
qed

text \<open>
  Claim C10: on the oracle-success path, a submitted active task whose id is not in
  the returned order is gone: the task is not in the returned list, no active
  record of the returned list has its id (no record at all when the ids are
  pairwise distinct), and no pair of the cache entry written has its id.
\<close>

theorem C10_omitted_active_dropped:
  assumes "2 \<le> length (filter is_active tasks)"
    and "force \<or> isPriorityCacheValid w (t_check e) = Returns False"
    and "answer e = Ranking order reasons"
    and "t \<in> set tasks" and "is_active t" and "tid t = Some i" and "i \<notin> set order"
  shows "\<exists>out ds w'. runPrioritize tasks force e w = (Returns out, w')
           \<and> cache w' = Parsed (Entry (Some ds) (AtNumber (t_save e)))
           \<and> t \<notin> set out
           \<and> Some i \<notin> tid ` set (filter is_active out)
           \<and> (distinct (map tid tasks) \<longrightarrow> Some i \<notin> tid ` set out)
           \<and> Some i \<notin> cid ` set ds"
proof -
  from assms(1) have ne: "filter is_active tasks \<noteq> []" by auto
  obtain s w1
    where p: "prioritizeTasks (filter is_active tasks) (Ranking order reasons) w = (Returns s, w1)"
    using ne by (simp add: prioritizeTasks_def Let_def)
  let ?out = "s @ filter (\<lambda>t. \<not> is_active t) tasks"
  let ?ds = "map (\<lambda>p. p\<lparr>creason := stringify (creason p)\<rparr>)
               (map (\<lambda>t. \<lparr>cid = tid t, creason = priorityReason t\<rparr>) s)"
  let ?w' = "savePriorityCache (map (\<lambda>t. \<lparr>cid = tid t, creason = priorityReason t\<rparr>) s)
               (t_save e) w1"
  have run: "runPrioritize tasks force e w = (Returns ?out, ?w')"
    using runPrioritize_oracle [OF assms(1,2)] p assms(3) by simp
  have cache: "cache ?w' = Parsed (Entry (Some ?ds) (AtNumber (t_save e)))"
    by (simp add: savePriorityCache_def)
  have front: "\<forall>x \<in> set s. tid x \<noteq> Some i"
  proof (intro ballI notI)
    fix x assume x: "x \<in> set s" "tid x = Some i"
    with ranked_elems [OF p x(1)] assms(7) show False by (auto simp: prop_key_def)
  qed
  have a: "t \<notin> set ?out" using front assms(5,6) by auto
  have b: "Some i \<notin> tid ` set (filter is_active ?out)" using front by auto
  have c: "distinct (map tid tasks) \<longrightarrow> Some i \<notin> tid ` set ?out"
  proof
    assume d: "distinct (map tid tasks)"
    show "Some i \<notin> tid ` set ?out"
    proof
      assume "Some i \<in> tid ` set ?out"
      then obtain x where x: "x \<in> set ?out" "tid x = Some i" by force
      with front have "x \<in> set tasks" "\<not> is_active x" by auto
      with d assms(4,6) x(2) have "x = t"
        by (metis distinct_map inj_onD)
      with \<open>\<not> is_active x\<close> assms(5) show False by simp
    qed
  qed
  have d: "Some i \<notin> cid ` set ?ds" using front by (auto simp: image_iff)
  from run cache a b c d show ?thesis by blast
qed

theorem C10_omitted_active_dropped_witness:
  "2 \<le> length (filter is_active
          [sample ''a'' ''active'', sample ''b'' ''active'', sample ''c'' ''active''])
   \<and> (True \<or> isPriorityCacheValid \<lparr>cache = NoItem, oracle_calls = 0, cache_writes = 0\<rparr> 1000
                = Returns False)
   \<and> answer \<lparr>t_check = 1000, t_save = 2000, answer = Ranking [''b'', ''a''] None\<rparr>
       = Ranking [''b'', ''a''] None
   \<and> sample ''c'' ''active''
       \<in> set [sample ''a'' ''active'', sample ''b'' ''active'', sample ''c'' ''active'']
   \<and> is_active (sample ''c'' ''active'')
   \<and> tid (sample ''c'' ''active'') = Some ''c''
   \<and> ''c'' \<notin> set [''b'', ''a'']
   \<and> distinct (map tid [sample ''a'' ''active'', sample ''b'' ''active'', sample ''c'' ''active''])
   \<and> (\<exists>out ds w'.
         runPrioritize [sample ''a'' ''active'', sample ''b'' ''active'', sample ''c'' ''active'']
           True
           \<lparr>t_check = 1000, t_save = 2000, answer = Ranking [''b'', ''a''] None\<rparr>
           \<lparr>cache = NoItem, oracle_calls = 0, cache_writes = 0\<rparr> = (Returns out, w')
         \<and> cache w' = Parsed (Entry (Some ds) (AtNumber 2000))
         \<and> sample ''c'' ''active'' \<notin> set out
         \<and> Some ''c'' \<notin> tid ` set (filter is_active out)
         \<and> Some ''c'' \<notin> tid ` set out
         \<and> Some ''c'' \<notin> cid ` set ds)"
proof -
  let ?tasks = "[sample ''a'' ''active'', sample ''b'' ''active'', sample ''c'' ''active'']"
  let ?w = "\<lparr>cache = NoItem, oracle_calls = 0, cache_writes = 0\<rparr>"
  let ?e = "\<lparr>t_check = 1000, t_save = 2000, answer = Ranking [''b'', ''a''] None\<rparr>"
  have h1: "2 \<le> length (filter is_active ?tasks)"
    by (simp add: is_active_def sample_def no_props_def)
  have h2: "True \<or> isPriorityCacheValid ?w (t_check ?e) = Returns False" by simp
  have h3: "answer ?e = Ranking [''b'', ''a''] None" by simp
  have h4: "sample ''c'' ''active'' \<in> set ?tasks" by simp
  have h5: "is_active (sample ''c'' ''active'')"
    by (simp add: is_active_def sample_def no_props_def)
  have h6: "tid (sample ''c'' ''active'') = Some ''c''" by (simp add: sample_def no_props_def)
  have h7: "''c'' \<notin> set [''b'', ''a'']" by simp
  have h8: "distinct (map tid ?tasks)" by (simp add: sample_def no_props_def)
  have t: "t_save ?e = 2000" by simp
  show ?thesis
    using h1 h2 h3 h4 h5 h6 h7 h8 C10_omitted_active_dropped [OF h1 h2 h3 h4 h5 h6 h7]
    unfolding t by blast
qed

section \<open>Uniqueness of ids\<close>

lemma ranked_distinct:
  assumes "prioritizeTasks active (Ranking order reasons) w = (Returns s, w')"
    and "distinct order" "set order \<inter> set proto_keys = {}"
  shows "distinct (map tid s)"
proof (cases "active = []")
  case True
  with assms show ?thesis by (auto simp: prioritizeTasks_def)
next
  case False
  let ?f = "\<lambda>i. case get_prop (task_map active) i of
                   Own t \<Rightarrow> Some t
                 | Inherited \<Rightarrow> Some no_props
                 | Absent \<Rightarrow> None"
  have keys: "map (\<lambda>t. prop_key (tid t)) (List.map_filter ?f order)
                = filter (\<lambda>i. task_map active i \<noteq> None) order"
    using assms(3)
  proof (induction order)
    case Nil
    show ?case by simp
  next
    case (Cons i order)
    then have "i \<notin> set proto_keys" by auto
    then show ?case using Cons
      by (cases "task_map active i") (auto simp: get_prop_def dest!: task_map_SomeD)
  qed
  from False assms(1) have "map tid s = map tid (List.map_filter ?f order)"
    by (auto simp: prioritizeTasks_def Let_def comp_def)
  moreover have "distinct (map prop_key (map tid (List.map_filter ?f order)))"
    using keys assms(2) by (simp add: comp_def)
  then have "distinct (map tid (List.map_filter ?f order))"
    by (simp only: distinct_map)
  ultimately show ?thesis by simp
qed

text \<open>
  Claim C9, as the specification states it: adding a task whose id comes from the
  id generator keeps the ids of the store pairwise distinct. It fails on the code,
  which has no check of uniqueness anywhere: \<^verbatim>\<open>handleAdd\<close> stores whatever
  \<^verbatim>\<open>runPrioritize\<close> returns, and an answer of the oracle that names an id twice puts
  that task twice in the store, though the new id was fresh. Nor is the new id
  fresh by construction: two random numbers that agree in their first seven digits
  give the same id.
\<close>

theorem C9_repeated_id_in_answer:
  "distinct (map tid [sample ''a'' ''active'', sample ''b'' ''active''])
   \<and> Some (uid ''x7k2m9qp4d1'') \<notin> tid ` set [sample ''a'' ''active'', sample ''b'' ''active'']
   \<and> map tid (fst (handleAdd (Some (sample (uid ''x7k2m9qp4d1'') ''active''))
        [sample ''a'' ''active'', sample ''b'' ''active'']
        \<lparr>t_check = 1000, t_save = 2000,
         answer = Ranking [''a'', ''a'', ''b'', ''x7k2m9q''] None\<rparr>
        \<lparr>cache = NoItem, oracle_calls = 0, cache_writes = 0\<rparr>))
     = [Some ''a'', Some ''a'', Some ''b'', Some ''x7k2m9q'']
   \<and> \<not> distinct (map tid (fst (handleAdd (Some (sample (uid ''x7k2m9qp4d1'') ''active''))
        [sample ''a'' ''active'', sample ''b'' ''active'']
        \<lparr>t_check = 1000, t_save = 2000,
         answer = Ranking [''a'', ''a'', ''b'', ''x7k2m9q''] None\<rparr>
        \<lparr>cache = NoItem, oracle_calls = 0, cache_writes = 0\<rparr>)))
   \<and> distinct (map tid [sample (uid ''x7k2m9qp4d1'') ''active'', sample ''b'' ''active''])
   \<and> map tid (fst (handleAdd (Some (sample (uid ''x7k2m9qzzzz'') ''active''))
        [sample (uid ''x7k2m9qp4d1'') ''active'', sample ''b'' ''active'']
        \<lparr>t_check = 1000, t_save = 2000, answer = Rejected\<rparr>
        \<lparr>cache = NoItem, oracle_calls = 0, cache_writes = 0\<rparr>))
     = [Some ''x7k2m9q'', Some ''x7k2m9q'', Some ''b'']"
  by (simp add: handleAdd_def uid_def runPrioritize_def from_cache_def prioritizeTasks_def
        savePriorityCache_def is_active_def sample_def no_props_def task_map_def fromEntries_def
        get_prop_def prop_key_def proto_keys_def reason_for_def js_or_def)

text \<open>
  Claim C9, amended: when the ids of the store are pairwise distinct, the id that
  \<^verbatim>\<open>uid\<close> produced for the new task is not among them (nothing in the code makes
  it so), and the oracle's answer names no id twice and no member of
  \<^verbatim>\<open>Object.prototype\<close>, the ids of the store after \<^verbatim>\<open>handleAdd\<close> are pairwise distinct.
\<close>

theorem C9_add_keeps_ids_distinct:
  assumes "distinct (map tid tasks)" and "tid t = Some (uid r)"
    and "Some (uid r) \<notin> tid ` set tasks" and "no_repeat (answer e)"
  shows "distinct (map tid (fst (handleAdd (Some t) tasks e w)))"
proof -
  let ?u = "t # tasks"
  have du: "distinct (map tid ?u)" using assms(1,2,3) by (auto simp: image_iff)
  show ?thesis
  proof (cases "length (filter is_active ?u) < 2")
    case True
    then have "runPrioritize ?u True e w = (Returns ?u, w)"
      by (simp add: runPrioritize_def)
    with du show ?thesis by (simp add: handleAdd_def)
  next
    case False
    then have two: "2 \<le> length (filter is_active ?u)" by simp
    then have ne: "filter is_active ?u \<noteq> []" by auto
    note run = runPrioritize_oracle [OF two, of True w e]
    obtain res w1 where p: "prioritizeTasks (filter is_active ?u) (answer e) w = (res, w1)"
      by (cases "prioritizeTasks (filter is_active ?u) (answer e) w")
    show ?thesis
    proof (cases res)
      case Throws
      with run p du show ?thesis by (simp add: handleAdd_def)
    next
      case (Returns s)
      have out: "fst (handleAdd (Some t) tasks e w) = s @ filter (\<lambda>t. \<not> is_active t) ?u"
        using run p Returns by (simp add: handleAdd_def)
      have "distinct (map tid (s @ filter (\<lambda>t. \<not> is_active t) ?u))"
      proof (cases "answer e")
        case (Ranking order reasons)
        with assms(4) have o: "distinct order" "set order \<inter> set proto_keys = {}" by auto
        from p Returns Ranking
        have pr: "prioritizeTasks (filter is_active ?u) (Ranking order reasons) w = (Returns s, w1)"
          by simp
        have ds: "distinct (map tid s)" using ranked_distinct [OF pr o] .
        have "\<forall>x \<in> set s. \<forall>y \<in> set (filter (\<lambda>t. \<not> is_active t) ?u). tid x \<noteq> tid y"
        proof (intro ballI notI)
          fix x y
          assume xy0: "x \<in> set s" "y \<in> set (filter (\<lambda>t. \<not> is_active t) ?u)" "tid x = tid y"
          from xy0(2) have "y \<in> set ?u \<and> \<not> is_active y" by (simp del: filter.simps)
          with xy0 have xy: "x \<in> set s" "y \<in> set ?u" "\<not> is_active y" "tid x = tid y"
            by blast+
          from ranked_elems [OF pr xy(1)] o(2)
          obtain a where a: "a \<in> set (filter is_active ?u)" "tid x = tid a"
            by blast
          then have "a \<in> set ?u \<and> is_active a" by (simp del: filter.simps)
          then have "a \<in> set ?u" "is_active a" by blast+
          with xy du a(2) have "a = y" by (metis distinct_map inj_onD)
          with \<open>is_active a\<close> xy show False by simp
        qed
        then have "tid ` set s \<inter> tid ` set (filter (\<lambda>t. \<not> is_active t) ?u) = {}"
          by blast
        moreover have "distinct (map tid (filter (\<lambda>t. \<not> is_active t) ?u))"
          using du by (simp only: distinct_map_filter)
        ultimately show ?thesis using ds by simp
      next
        case Rejected
        with p Returns ne show ?thesis
          by (simp add: prioritizeTasks_def Let_def del: filter.simps)
      next
        case Unparsable
        with p Returns ne have "s = filter is_active ?u"
          by (simp add: prioritizeTasks_def Let_def del: filter.simps)
        with distinct_partition [OF du, of is_active] show ?thesis by simp
      next
        case NoOrder
        with p Returns ne have "s = filter is_active ?u"
          by (simp add: prioritizeTasks_def Let_def del: filter.simps)
        with distinct_partition [OF du, of is_active] show ?thesis by simp
      qed
      with out show ?thesis by simp
    qed
  qed
qed

theorem C9_add_keeps_ids_distinct_witness:
  "distinct (map tid [sample ''a'' ''active'', sample ''b'' ''active''])
   \<and> tid (sample (uid ''x7k2m9qp4d1'') ''active'') = Some (uid ''x7k2m9qp4d1'')
   \<and> Some (uid ''x7k2m9qp4d1'') \<notin> tid ` set [sample ''a'' ''active'', sample ''b'' ''active'']
   \<and> no_repeat (answer \<lparr>t_check = 1000, t_save = 2000,
                          answer = Ranking [''x7k2m9q'', ''b'', ''a''] None\<rparr>)
   \<and> distinct (map tid (fst (handleAdd (Some (sample (uid ''x7k2m9qp4d1'') ''active''))
        [sample ''a'' ''active'', sample ''b'' ''active'']
        \<lparr>t_check = 1000, t_save = 2000, answer = Ranking [''x7k2m9q'', ''b'', ''a''] None\<rparr>
        \<lparr>cache = NoItem, oracle_calls = 0, cache_writes = 0\<rparr>)))"
proof -
  let ?tasks = "[sample ''a'' ''active'', sample ''b'' ''active'']"
  let ?e = "\<lparr>t_check = 1000, t_save = 2000, answer = Ranking [''x7k2m9q'', ''b'', ''a''] None\<rparr>"
  have h1: "distinct (map tid ?tasks)" by (simp add: sample_def no_props_def)
  have h2: "tid (sample (uid ''x7k2m9qp4d1'') ''active'') = Some (uid ''x7k2m9qp4d1'')"
    by (simp add: sample_def no_props_def)
  have h3: "Some (uid ''x7k2m9qp4d1'') \<notin> tid ` set ?tasks"
    by (simp add: sample_def no_props_def uid_def)
  have h4: "no_repeat (answer ?e)" by (simp add: proto_keys_def)
  show ?thesis
    using h1 h2 h3 h4 C9_add_keeps_ids_distinct [OF h1 h2 h3 h4] by blast
qed

end
